theory Spec2Isabelle
  imports Main "HOL-Library.Word" "HOL-Library.Finite_Map"
begin

section \<open>The harness stubs of ns\_ambiqsuite\_harness\_fvp.h\<close>

subsection \<open>Data\<close>

text \<open>
  The target of the Fixed Virtual Platform is a 32-bit Arm core: \<open>uint32_t\<close>,
  \<open>size_t\<close> and object pointers are 32-bit values. The null pointer is the value 0.
\<close>

type_synonym uint32_t = "32 word"
type_synonym size_t = "32 word"
type_synonym ptr = "32 word"

definition NULL :: ptr where
  "NULL = 0"

text \<open>
  \<^verbatim>\<open>typedef struct { uint32_t start_time; uint32_t duration; } ns_timer_t;\<close>
\<close>

record ns_timer_t =
  start_time :: uint32_t
  duration :: uint32_t

text \<open>
  The two timer functions take \<^verbatim>\<open>ns_timer_t *timer\<close> and assign to fields of the
  record it points to. Their bodies are modelled on that record: the function takes the
  contents of \<^verbatim>\<open>*timer\<close> before the call and returns the contents after it. The
  assignments follow the order of the source.
\<close>

definition ns_timer_init :: "ns_timer_t \<Rightarrow> ns_timer_t" where
  "ns_timer_init timer = (timer\<lparr>start_time := 0\<rparr>)\<lparr>duration := 0\<rparr>"

definition ns_timer_start :: "ns_timer_t \<Rightarrow> ns_timer_t" where
  "ns_timer_start timer = timer\<lparr>start_time := 0\<rparr>"

subsection \<open>Program state\<close>

text \<open>
  The state a call can see. The timer records are storage of the caller; a pointer to one
  of them is modelled by a reference that names the record (two references are two
  records). Every call is taken within the contract of the C function it reaches: a
  timer function is called on a timer record; a call through a pointer to no timer
  record has no defined behaviour in C and is not part of the model. Everything that is
  not storage of the caller (the arena of the host's
  allocator, its standard output, the registers of the simulated hardware) is the
  component \<open>world\<close>, whose
  type is left open.
\<close>

type_synonym timer_ref = nat

record 'w state =
  timers :: "timer_ref \<Rightarrow> ns_timer_t"
  world :: 'w

text \<open>A call \<^verbatim>\<open>f(&t)\<close> of a timer function on the record named \<open>r\<close>.\<close>

definition on_timer :: "(ns_timer_t \<Rightarrow> ns_timer_t) \<Rightarrow> timer_ref \<Rightarrow> 'w state \<Rightarrow> 'w state" where
  "on_timer f r s = s\<lparr>timers := (timers s)(r := f (timers s r))\<rparr>"

text \<open>The functions with an empty body (\<^verbatim>\<open>// No-op for FVP\<close>), as state transformers.\<close>

definition ns_core_init :: "'w state \<Rightarrow> 'w state" where
  "ns_core_init s = s"

definition ns_core_deinit :: "'w state \<Rightarrow> 'w state" where
  "ns_core_deinit s = s"

definition ns_power_init :: "'w state \<Rightarrow> 'w state" where
  "ns_power_init s = s"

definition ns_power_deinit :: "'w state \<Rightarrow> 'w state" where
  "ns_power_deinit s = s"

definition am_bsp_low_power_init :: "'w state \<Rightarrow> 'w state" where
  "am_bsp_low_power_init s = s"

definition am_bsp_low_power_exit :: "'w state \<Rightarrow> 'w state" where
  "am_bsp_low_power_exit s = s"

definition am_hal_interrupt_master_enable :: "'w state \<Rightarrow> 'w state" where
  "am_hal_interrupt_master_enable s = s"

definition am_hal_interrupt_master_disable :: "'w state \<Rightarrow> 'w state" where
  "am_hal_interrupt_master_disable s = s"

definition am_hal_sysctrl_sleep :: "'w state \<Rightarrow> 'w state" where
  "am_hal_sysctrl_sleep s = s"

definition am_hal_sysctrl_deepsleep :: "'w state \<Rightarrow> 'w state" where
  "am_hal_sysctrl_deepsleep s = s"

subsection \<open>The C library of the host\<close>

text \<open>
  \<^verbatim>\<open>malloc\<close>, \<^verbatim>\<open>free\<close> and \<^verbatim>\<open>printf\<close> belong to the C library of the host,
  not to this repository: they are a parameter of the model. Every size is a valid
  argument of \<open>malloc\<close>, which reports failure by its result: it returns a pointer
  (\<open>NULL\<close> when it cannot allocate) and the new state of the host. \<open>free\<close> returns
  the new state of the host, or a fault where the host's \<^verbatim>\<open>free\<close> does not accept
  the pointer (a C library may abort on a pointer it never handed out). \<open>printf\<close>
  takes the format and the values of the further arguments, and returns the
  \<^verbatim>\<open>int\<close> of the C function (the number of characters written, or a negative
  value when the output fails) and the new state of the host.
\<close>

datatype fault = Host_fault

record 'w host =
  malloc :: "size_t \<Rightarrow> 'w \<Rightarrow> ptr \<times> 'w"
  free :: "ptr \<Rightarrow> 'w \<Rightarrow> fault + 'w"
  printf :: "string \<Rightarrow> uint32_t list \<Rightarrow> 'w \<Rightarrow> int \<times> 'w"

text \<open>
  \<^verbatim>\<open>#define ns_lp_printf printf\<close>: a call of \<^verbatim>\<open>ns_lp_printf\<close> is a call of the
  host's \<^verbatim>\<open>printf\<close> with the same arguments, and its value is the value of that
  call.
\<close>

definition ns_lp_printf ::
  "'w host \<Rightarrow> string \<Rightarrow> uint32_t list \<Rightarrow> 'w state \<Rightarrow> int \<times> 'w state" where
  "ns_lp_printf h fmt args s =
     (case printf h fmt args (world s) of (n, w) \<Rightarrow> (n, s\<lparr>world := w\<rparr>))"

text \<open>\<^verbatim>\<open>static inline void* ns_malloc(size_t size) { return malloc(size); }\<close>\<close>

definition ns_malloc :: "'w host \<Rightarrow> size_t \<Rightarrow> 'w state \<Rightarrow> ptr \<times> 'w state" where
  "ns_malloc h sz s =
     (case malloc h sz (world s) of (p, w) \<Rightarrow> (p, s\<lparr>world := w\<rparr>))"

text \<open>\<^verbatim>\<open>static inline void ns_free(void* ptr) { free(ptr); }\<close>\<close>

definition ns_free :: "'w host \<Rightarrow> ptr \<Rightarrow> 'w state \<Rightarrow> fault + 'w state" where
  "ns_free h p s =
     (case free h p (world s) of Inl e \<Rightarrow> Inl e | Inr w \<Rightarrow> Inr (s\<lparr>world := w\<rparr>))"

subsection \<open>Calls and sequences of calls\<close>

text \<open>
  One constructor for each function the header defines and one for the alias
  \<^verbatim>\<open>ns_lp_printf\<close>, with the arguments of the call. A call returns nothing
  (\<open>Void\<close>), a pointer or an \<^verbatim>\<open>int\<close>; a sequence of calls stops at the first
  fault.
\<close>

datatype call =
    Ns_lp_printf string "uint32_t list"
  | Ns_timer_init timer_ref
  | Ns_timer_start timer_ref
  | Ns_core_init
  | Ns_core_deinit
  | Ns_power_init
  | Ns_power_deinit
  | Ns_malloc size_t
  | Ns_free ptr
  | Am_bsp_low_power_init
  | Am_bsp_low_power_exit
  | Am_hal_interrupt_master_enable
  | Am_hal_interrupt_master_disable
  | Am_hal_sysctrl_sleep
  | Am_hal_sysctrl_deepsleep

datatype ret = Void | Pointer ptr | Integer int

fun exec :: "'w host \<Rightarrow> call \<Rightarrow> 'w state \<Rightarrow> fault + (ret \<times> 'w state)" where
  "exec h (Ns_lp_printf fmt args) s =
     (case ns_lp_printf h fmt args s of (n, s') \<Rightarrow> Inr (Integer n, s'))"
| "exec h (Ns_timer_init r) s = Inr (Void, on_timer ns_timer_init r s)"
| "exec h (Ns_timer_start r) s = Inr (Void, on_timer ns_timer_start r s)"
| "exec h Ns_core_init s = Inr (Void, ns_core_init s)"
| "exec h Ns_core_deinit s = Inr (Void, ns_core_deinit s)"
| "exec h Ns_power_init s = Inr (Void, ns_power_init s)"
| "exec h Ns_power_deinit s = Inr (Void, ns_power_deinit s)"
| "exec h (Ns_malloc n) s = (case ns_malloc h n s of (p, s') \<Rightarrow> Inr (Pointer p, s'))"
| "exec h (Ns_free p) s = (case ns_free h p s of Inl e \<Rightarrow> Inl e | Inr s' \<Rightarrow> Inr (Void, s'))"
| "exec h Am_bsp_low_power_init s = Inr (Void, am_bsp_low_power_init s)"
| "exec h Am_bsp_low_power_exit s = Inr (Void, am_bsp_low_power_exit s)"
| "exec h Am_hal_interrupt_master_enable s = Inr (Void, am_hal_interrupt_master_enable s)"
| "exec h Am_hal_interrupt_master_disable s = Inr (Void, am_hal_interrupt_master_disable s)"
| "exec h Am_hal_sysctrl_sleep s = Inr (Void, am_hal_sysctrl_sleep s)"
| "exec h Am_hal_sysctrl_deepsleep s = Inr (Void, am_hal_sysctrl_deepsleep s)"

fun run :: "'w host \<Rightarrow> call list \<Rightarrow> 'w state \<Rightarrow> fault + (ret list \<times> 'w state)" where
  "run h [] s = Inr ([], s)"
| "run h (c # cs) s =
     (case exec h c s of
        Inl e \<Rightarrow> Inl e
      | Inr (v, s') \<Rightarrow>
          (case run h cs s' of Inl e \<Rightarrow> Inl e | Inr (vs, s'') \<Rightarrow> Inr (v # vs, s'')))"

text \<open>The state a sequence of calls ends in, or the fault that stopped it.\<close>

definition state_after :: "'w host \<Rightarrow> call list \<Rightarrow> 'w state \<Rightarrow> fault + 'w state" where
  "state_after h cs s = (case run h cs s of Inl e \<Rightarrow> Inl e | Inr (vs, s') \<Rightarrow> Inr s')"

text \<open>The ten functions with an empty body.\<close>

fun is_noop :: "call \<Rightarrow> bool" where
  "is_noop Ns_core_init = True"
| "is_noop Ns_core_deinit = True"
| "is_noop Ns_power_init = True"
| "is_noop Ns_power_deinit = True"
| "is_noop Am_bsp_low_power_init = True"
| "is_noop Am_bsp_low_power_exit = True"
| "is_noop Am_hal_interrupt_master_enable = True"
| "is_noop Am_hal_interrupt_master_disable = True"
| "is_noop Am_hal_sysctrl_sleep = True"
| "is_noop Am_hal_sysctrl_deepsleep = True"
| "is_noop (Ns_timer_init r) = False"
| "is_noop (Ns_timer_start r) = False"
| "is_noop (Ns_malloc n) = False"
| "is_noop (Ns_free p) = False"
| "is_noop (Ns_lp_printf fmt args) = False"

text \<open>
  The stubs that are a call of the host's C library: the two whose body is a call of
  the allocator, and the alias of \<^verbatim>\<open>printf\<close>.
\<close>

fun forwards :: "call \<Rightarrow> bool" where
  "forwards (Ns_malloc n) = True"
| "forwards (Ns_free p) = True"
| "forwards (Ns_lp_printf fmt args) = True"
| "forwards c = False"


subsection \<open>A host to run the stubs on\<close>

text \<open>
  An instance of the host parameter, used to evaluate the stubs on concrete inputs: an
  arena of 64 bytes at address 16 that hands out consecutive blocks, returns \<open>NULL\<close>
  for a request that does not fit, accepts \<open>free\<close> of \<open>NULL\<close> and of a block it handed
  out and has not freed, and faults on \<open>free\<close> of any other pointer. Its standard
  output is a device that takes eight characters: \<open>printf\<close> of a text that still fits
  appends it and returns its length, \<open>printf\<close> of a text that does not fit writes
  nothing and returns \<open>-1\<close>. The formats it is run on have no conversions, and it
  writes a format as it is.
\<close>

record arena =
  next_free :: nat
  blocks :: "ptr list"
  out :: string

definition arena_malloc :: "size_t \<Rightarrow> arena \<Rightarrow> ptr \<times> arena" where
  "arena_malloc n a =
     (if 0 < unat n \<and> next_free a + unat n \<le> 80
      then (of_nat (next_free a),
            a\<lparr>next_free := next_free a + unat n, blocks := of_nat (next_free a) # blocks a\<rparr>)
      else (NULL, a))"

definition arena_free :: "ptr \<Rightarrow> arena \<Rightarrow> fault + arena" where
  "arena_free p a =
     (if p = NULL then Inr a
      else if p \<in> set (blocks a) then Inr (a\<lparr>blocks := removeAll p (blocks a)\<rparr>)
      else Inl Host_fault)"

definition arena_printf :: "string \<Rightarrow> uint32_t list \<Rightarrow> arena \<Rightarrow> int \<times> arena" where
  "arena_printf fmt args a =
     (if length (out a) + length fmt \<le> 8
      then (int (length fmt), a\<lparr>out := out a @ fmt\<rparr>)
      else (- 1, a))"

definition arena_host :: "arena host" where
  "arena_host = \<lparr>malloc = arena_malloc, free = arena_free, printf = arena_printf\<rparr>"

definition arena0 :: arena where
  "arena0 = \<lparr>next_free = 16, blocks = [], out = ''''\<rparr>"

text \<open>A state whose timer records hold values no init call has set.\<close>

definition garbage :: "arena state" where
  "garbage = \<lparr>timers = (\<lambda>r. \<lparr>start_time = 7, duration = 9\<rparr>), world = arena0\<rparr>"

text \<open>
  The part of the contract of a C allocator that the claim on \<open>ns_free\<close> rests on:
  \<open>free\<close> accepts the pointer that \<open>malloc\<close> has just returned (\<open>NULL\<close> included).
\<close>

definition accepts_own_pointers :: "'w host \<Rightarrow> bool" where
  "accepts_own_pointers h =
     (\<forall>n w p w'. malloc h n w = (p, w') \<longrightarrow> (\<exists>w''. free h p w' = Inr w''))"

section \<open>The guarded macro definitions of cmsis.h\<close>

text \<open>
  The replacement list of a macro, as the expression it stands for. Only the forms that
  occur in cmsis.h are needed: an unsigned integer constant with its suffix
  (\<^verbatim>\<open>0U\<close>, \<^verbatim>\<open>1UL\<close>), an identifier, a left shift, a cast of an expression
  to a type, and an inline-assembly statement.
\<close>

datatype suffix = U | UL

datatype expr =
    Const nat suffix
  | Ident string
  | Shl expr expr
  | Cast string expr
  | Asm string

text \<open>
  A macro has an empty replacement list (\<^verbatim>\<open>#define CMSIS_H\<close>), is object-like, or is
  function-like with no parameters (\<^verbatim>\<open>#define __DSB() ...\<close>).
\<close>

datatype macro =
    Empty
  | Object expr
  | Function expr

text \<open>The macro environment of the preprocessor: a finite map from names to macros.\<close>

type_synonym env = "(string, macro) fmap"

text \<open>The directives that occur in cmsis.h; \<^verbatim>\<open>#ifndef\<close> holds the lines up to its \<^verbatim>\<open>#endif\<close>.\<close>

datatype directive =
    Define string macro
  | Include string
  | Ifndef string "directive list"

text \<open>
  \<^verbatim>\<open>#define\<close> of a name that is defined with another replacement list is the
  redefinition error; with the same one it is accepted and changes nothing.
  \<^verbatim>\<open>#ifndef\<close> skips its lines when the name is defined. The two files that
  cmsis.h includes are not part of the repository: what an \<^verbatim>\<open>#include\<close> does to
  the environment is the parameter \<open>inc\<close>, a function of the file name.
\<close>

datatype cpp_error = Redefinition string

fun process :: "(string \<Rightarrow> env \<Rightarrow> env) \<Rightarrow> directive \<Rightarrow> env \<Rightarrow> cpp_error + env"
  and process_all :: "(string \<Rightarrow> env \<Rightarrow> env) \<Rightarrow> directive list \<Rightarrow> env \<Rightarrow> cpp_error + env"
where
  "process inc (Define x m) env =
     (case fmlookup env x of
        None \<Rightarrow> Inr (fmupd x m env)
      | Some m' \<Rightarrow> if m' = m then Inr env else Inl (Redefinition x))"
| "process inc (Include f) env = Inr (inc f env)"
| "process inc (Ifndef x ds) env =
     (if x |\<in>| fmdom env then Inr env else process_all inc ds env)"
| "process_all inc [] env = Inr env"
| "process_all inc (d # ds) env =
     (case process inc d env of Inl e \<Rightarrow> Inl e | Inr env' \<Rightarrow> process_all inc ds env')"

text \<open>cmsis.h, line by line.\<close>

definition cmsis_h :: "directive list" where
  "cmsis_h =
     [Ifndef ''CMSIS_H''
        [Define ''CMSIS_H'' Empty,
         Include ''cmsis_compiler.h'',
         Include ''cmsis_gcc.h'',
         Ifndef ''CoreDebug''
           [Define ''CoreDebug'' (Object (Cast ''CoreDebug_Type *'' (Ident ''CoreDebug_BASE'')))],
         Ifndef ''DWT''
           [Define ''DWT'' (Object (Cast ''DWT_Type *'' (Ident ''DWT_BASE'')))],
         Ifndef ''DWT_CTRL_CYCCNTENA_Msk''
           [Define ''DWT_CTRL_CYCCNTENA_Msk''
              (Object (Shl (Const 1 UL) (Ident ''DWT_CTRL_CYCCNTENA_Pos'')))],
         Ifndef ''DWT_CTRL_CYCCNTENA_Pos''
           [Define ''DWT_CTRL_CYCCNTENA_Pos'' (Object (Const 0 U))],
         Ifndef ''CoreDebug_DEMCR_TRCENA_Msk''
           [Define ''CoreDebug_DEMCR_TRCENA_Msk''
              (Object (Shl (Const 1 UL) (Ident ''CoreDebug_DEMCR_TRCENA_Pos'')))],
         Ifndef ''CoreDebug_DEMCR_TRCENA_Pos''
           [Define ''CoreDebug_DEMCR_TRCENA_Pos'' (Object (Const 24 U))],
         Ifndef ''DWT_LAR''
           [Define ''DWT_LAR'' (Object (Const 0xC5ACCE55 U))],
         Ifndef ''__DSB''
           [Define ''__DSB'' (Function (Asm ''dsb''))],
         Ifndef ''__ISB''
           [Define ''__ISB'' (Function (Asm ''isb''))]]]"

text \<open>The nine names that cmsis.h defines under a guard of their own.\<close>

definition guarded_symbols :: "string list" where
  "guarded_symbols =
     [''CoreDebug'', ''DWT'', ''DWT_CTRL_CYCCNTENA_Msk'', ''DWT_CTRL_CYCCNTENA_Pos'',
      ''CoreDebug_DEMCR_TRCENA_Msk'', ''CoreDebug_DEMCR_TRCENA_Pos'', ''DWT_LAR'',
      ''__DSB'', ''__ISB'']"

text \<open>
  What is assumed of the included files where a property needs it: they only add
  macros, so that a macro defined before an \<^verbatim>\<open>#include\<close> is defined the same
  after it.
\<close>

definition only_adds :: "(string \<Rightarrow> env \<Rightarrow> env) \<Rightarrow> bool" where
  "only_adds inc = (\<forall>f e x m. fmlookup e x = Some m \<longrightarrow> fmlookup (inc f e) x = Some m)"

text \<open>Included files that define no macro, to run the header on concrete environments.\<close>

definition no_includes :: "string \<Rightarrow> env \<Rightarrow> env" where
  "no_includes f e = e"

text \<open>
  The value of an expression as a constant of the C program, where it has one. On the
  target \<^verbatim>\<open>unsigned int\<close> and \<^verbatim>\<open>unsigned long\<close> are both 32 bits wide. An
  identifier that names an object-like macro is replaced by the macro's replacement
  list when the expression is used, not when the macro is defined; inside the
  replacement the macro's own name is not replaced again, as in C. A shift by 32 or
  more has no defined value, and a constant that does not fit 32 bits is outside the
  model. Casts to pointer types and assembly statements are not integer constants; an
  assembly statement is kept by the instruction it names.
\<close>

lemma fmdrop_smaller:
  "fmlookup env x = Some m \<Longrightarrow> fcard (fmdom (fmdrop x env)) < fcard (fmdom env)"
  by (simp only: fmdom_drop) (rule fcard_fminus1_less, erule fmdomI)

function eval :: "env \<Rightarrow> expr \<Rightarrow> 32 word option" where
  "eval env (Const n sfx) = (if n < 2 ^ 32 then Some (of_nat n) else None)"
| "eval env (Ident x) =
     (case fmlookup env x of
        Some (Object e) \<Rightarrow> eval (fmdrop x env) e
      | _ \<Rightarrow> None)"
| "eval env (Shl a b) =
     (case eval env a of
        None \<Rightarrow> None
      | Some v \<Rightarrow>
          (case eval env b of
             None \<Rightarrow> None
           | Some k \<Rightarrow> if unat k < 32 then Some (push_bit (unat k) v) else None))"
| "eval env (Cast t e) = None"
| "eval env (Asm s) = None"
  by pat_completeness auto
termination
  apply (relation "measures [\<lambda>(env, e). fcard (fmdom env), \<lambda>(env, e). size e]")
  apply simp
  apply (simp del: fmdom_drop add: fmdrop_smaller)
  apply simp
  apply simp
  done

text \<open>
  The specification of a guarded definition in the words of the spec: define the name
  only if it is not defined yet. \<open>guarded_block\<close> is the nine guarded definitions of
  cmsis.h written this way, to compare with what processing the header computes.
\<close>

definition define_if_absent :: "string \<Rightarrow> macro \<Rightarrow> env \<Rightarrow> env" where
  "define_if_absent x m env = (if x |\<in>| fmdom env then env else fmupd x m env)"

definition guarded_block :: "env \<Rightarrow> env" where
  "guarded_block =
     define_if_absent ''__ISB'' (Function (Asm ''isb''))
     \<circ> define_if_absent ''__DSB'' (Function (Asm ''dsb''))
     \<circ> define_if_absent ''DWT_LAR'' (Object (Const 0xC5ACCE55 U))
     \<circ> define_if_absent ''CoreDebug_DEMCR_TRCENA_Pos'' (Object (Const 24 U))
     \<circ> define_if_absent ''CoreDebug_DEMCR_TRCENA_Msk''
         (Object (Shl (Const 1 UL) (Ident ''CoreDebug_DEMCR_TRCENA_Pos'')))
     \<circ> define_if_absent ''DWT_CTRL_CYCCNTENA_Pos'' (Object (Const 0 U))
     \<circ> define_if_absent ''DWT_CTRL_CYCCNTENA_Msk''
         (Object (Shl (Const 1 UL) (Ident ''DWT_CTRL_CYCCNTENA_Pos'')))
     \<circ> define_if_absent ''DWT'' (Object (Cast ''DWT_Type *'' (Ident ''DWT_BASE'')))
     \<circ> define_if_absent ''CoreDebug''
         (Object (Cast ''CoreDebug_Type *'' (Ident ''CoreDebug_BASE'')))"

text \<open>The included files neither define nor change the macros named in \<open>xs\<close>.\<close>

definition leaves_alone :: "(string \<Rightarrow> env \<Rightarrow> env) \<Rightarrow> string list \<Rightarrow> bool" where
  "leaves_alone inc xs = (\<forall>f e. \<forall>x \<in> set xs. fmlookup (inc f e) x = fmlookup e x)"

text \<open>
  The environment after a vendor header that has defined a lock constant of its own and
  the position of the cycle-counter enable bit, but not the mask.
\<close>

definition vendor_env :: env where
  "vendor_env =
     fmupd ''DWT_LAR'' (Object (Const 1 U))
       (fmupd ''DWT_CTRL_CYCCNTENA_Pos'' (Object (Const 5 U)) fmempty)"

section \<open>Properties of the timer stubs\<close>

text \<open>
  Claim C1. For every timer record, in every state and with every host: the call of
  \<open>ns_timer_init\<close> followed by the call of \<open>ns_timer_start\<close> on that record returns
  normally from both, and leaves the record with \<open>start_time = 0\<close> and \<open>duration = 0\<close>;
  the duration after the start call is the one the init call set.
\<close>

theorem init_then_start:
  "\<exists>s1 s2.
     exec h (Ns_timer_init r) s = Inr (Void, s1)
     \<and> exec h (Ns_timer_start r) s1 = Inr (Void, s2)
     \<and> run h [Ns_timer_init r, Ns_timer_start r] s = Inr ([Void, Void], s2)
     \<and> start_time (timers s2 r) = 0
     \<and> duration (timers s2 r) = 0
     \<and> duration (timers s2 r) = duration (timers s1 r)"
  by (simp add: on_timer_def ns_timer_init_def ns_timer_start_def)

text \<open>
  Claim C2. For every timer record in any state, \<open>ns_timer_start\<close> writes 0 to
  \<open>start_time\<close> and leaves \<open>duration\<close> as it was; the call returns normally, every
  other timer record is unchanged, and so is all state that is not the caller's.
\<close>

theorem start_frame:
  "start_time (ns_timer_start t) = 0
   \<and> duration (ns_timer_start t) = duration t
   \<and> (\<exists>s'. exec h (Ns_timer_start r) s = Inr (Void, s')
          \<and> start_time (timers s' r) = 0
          \<and> duration (timers s' r) = duration (timers s r)
          \<and> (\<forall>r'. r' \<noteq> r \<longrightarrow> timers s' r' = timers s r')
          \<and> world s' = world s)"
  by (simp add: on_timer_def ns_timer_start_def)

theorem start_frame_witness:
  "(1::nat) \<noteq> 0
   \<and> (\<exists>s'. exec arena_host (Ns_timer_start 0) garbage = Inr (Void, s')
          \<and> timers s' 0 = \<lparr>start_time = 0, duration = 9\<rparr>
          \<and> timers s' 1 = \<lparr>start_time = 7, duration = 9\<rparr>
          \<and> world s' = arena0)"
  using start_frame [of "timers garbage 0" arena_host 0 garbage]
  by (simp add: on_timer_def ns_timer_start_def garbage_def)

text \<open>
  Claim C9. \<open>ns_timer_start\<close> needs no earlier \<open>ns_timer_init\<close>: on a record with any
  contents, one call returns normally and leaves \<open>start_time = 0\<close>. It reads neither
  field: the value it writes is the same for every record, changing the \<open>start_time\<close>
  of the record before the call changes nothing after it, and changing the \<open>duration\<close>
  before the call is the same as changing it after the call.
\<close>

theorem start_without_init:
  "(\<exists>s'. exec h (Ns_timer_start r) s = Inr (Void, s') \<and> start_time (timers s' r) = 0)
   \<and> start_time (ns_timer_start t) = 0
   \<and> start_time (ns_timer_start t) = start_time (ns_timer_start t')
   \<and> ns_timer_start (t\<lparr>start_time := x\<rparr>) = ns_timer_start t
   \<and> ns_timer_start (t\<lparr>duration := d\<rparr>) = (ns_timer_start t)\<lparr>duration := d\<rparr>"
  by (simp add: on_timer_def ns_timer_start_def)

section \<open>Properties of the stubs with an empty body\<close>

lemma exec_noop: "is_noop c \<Longrightarrow> exec h c s = Inr (Void, s)"
  by (cases c)
     (simp_all add: ns_core_init_def ns_core_deinit_def ns_power_init_def ns_power_deinit_def
        am_bsp_low_power_init_def am_bsp_low_power_exit_def
        am_hal_interrupt_master_enable_def am_hal_interrupt_master_disable_def
        am_hal_sysctrl_sleep_def am_hal_sysctrl_deepsleep_def)

lemma run_noops: "\<forall>c \<in> set cs. is_noop c \<Longrightarrow> run h cs s = Inr (replicate (length cs) Void, s)"
  by (induction cs) (simp_all add: exec_noop)

text \<open>
  Claim C3. Each of the ten stubs with an empty body is the identity on the state, and
  a sequence of calls of them, in any order and of any length, returns normally from
  every call, returns no value from any, and ends in the state it started in.
\<close>

theorem noops_identity:
  "ns_core_init s = s \<and> ns_core_deinit s = s
   \<and> ns_power_init s = s \<and> ns_power_deinit s = s
   \<and> am_hal_interrupt_master_enable s = s \<and> am_hal_interrupt_master_disable s = s
   \<and> am_hal_sysctrl_sleep s = s \<and> am_hal_sysctrl_deepsleep s = s
   \<and> am_bsp_low_power_init s = s \<and> am_bsp_low_power_exit s = s
   \<and> ((\<forall>c \<in> set cs. is_noop c) \<longrightarrow> run h cs s = Inr (replicate (length cs) Void, s))"
  by (simp add: run_noops ns_core_init_def ns_core_deinit_def ns_power_init_def
        ns_power_deinit_def am_bsp_low_power_init_def am_bsp_low_power_exit_def
        am_hal_interrupt_master_enable_def am_hal_interrupt_master_disable_def
        am_hal_sysctrl_sleep_def am_hal_sysctrl_deepsleep_def)

theorem noops_identity_witness:
  "list_all is_noop [Am_hal_sysctrl_deepsleep, Ns_core_init, Am_hal_sysctrl_deepsleep,
       Ns_power_deinit, Am_bsp_low_power_exit, Am_hal_interrupt_master_disable,
       Ns_core_deinit, Ns_power_init, Am_hal_interrupt_master_enable,
       Am_bsp_low_power_init, Am_hal_sysctrl_sleep]
   \<and> run arena_host [Am_hal_sysctrl_deepsleep, Ns_core_init, Am_hal_sysctrl_deepsleep,
       Ns_power_deinit, Am_bsp_low_power_exit, Am_hal_interrupt_master_disable,
       Ns_core_deinit, Ns_power_init, Am_hal_interrupt_master_enable,
       Am_bsp_low_power_init, Am_hal_sysctrl_sleep] garbage
     = Inr ([Void, Void, Void, Void, Void, Void, Void, Void, Void, Void, Void], garbage)"
  using noops_identity [of garbage
      "[Am_hal_sysctrl_deepsleep, Ns_core_init, Am_hal_sysctrl_deepsleep,
       Ns_power_deinit, Am_bsp_low_power_exit, Am_hal_interrupt_master_disable,
       Ns_core_deinit, Ns_power_init, Am_hal_interrupt_master_enable,
       Am_bsp_low_power_init, Am_hal_sysctrl_sleep]" arena_host]
  by (simp add: numeral_eq_Suc)

section \<open>Idempotence and global state\<close>

lemma exec_local:
  "\<not> forwards c \<Longrightarrow>
     \<exists>s'. exec h c s = Inr (Void, s') \<and> exec h c s' = Inr (Void, s') \<and> world s' = world s"
  by (cases c)
     (simp_all add: on_timer_def ns_timer_init_def ns_timer_start_def
        ns_core_init_def ns_core_deinit_def ns_power_init_def ns_power_deinit_def
        am_bsp_low_power_init_def am_bsp_low_power_exit_def
        am_hal_interrupt_master_enable_def am_hal_interrupt_master_disable_def
        am_hal_sysctrl_sleep_def am_hal_sysctrl_deepsleep_def)





section \<open>The allocator stubs\<close>

lemma arena_accepts: "accepts_own_pointers arena_host"
  by (auto simp: accepts_own_pointers_def arena_host_def arena_malloc_def arena_free_def
      split: if_splits)

lemma run_local:
  "list_all (\<lambda>c. \<not> forwards c) cs \<Longrightarrow> \<exists>vs s'. run h cs s = Inr (vs, s') \<and> world s' = world s"
proof (induction cs arbitrary: s)
  case Nil
  then show ?case by simp
next
  case (Cons c cs)
  then have "\<not> forwards c" and rest: "list_all (\<lambda>c. \<not> forwards c) cs"
    by simp_all
  then obtain s1 where s1: "exec h c s = Inr (Void, s1)" "world s1 = world s"
    using exec_local [of c h s] by blast
  from Cons.IH [OF rest, of s1] obtain vs s' where "run h cs s1 = Inr (vs, s')" "world s' = world s1"
    by blast
  with s1 show ?case by simp
qed

lemma run_append:
  "run h cs s = Inr (vs, s') \<Longrightarrow>
     run h (cs @ ds) s
       = (case run h ds s' of Inl e \<Rightarrow> Inl e | Inr (ws, s'') \<Rightarrow> Inr (vs @ ws, s''))"
proof (induction cs arbitrary: s vs)
  case Nil
  then show ?case by (simp split: sum.splits prod.splits)
next
  case (Cons c cs)
  then show ?case
    by (auto split: sum.splits prod.splits)
qed

lemma free_after_malloc:
  assumes "accepts_own_pointers h" and "exec h (Ns_malloc n) s = Inr (Pointer q, s1)"
  shows "\<exists>s2. exec h (Ns_free q) s1 = Inr (Void, s2)"
proof -
  from assms(2) have "malloc h n (world s) = (q, world s1)"
    by (auto simp: ns_malloc_def split: prod.splits)
  with assms(1) obtain w where "free h q (world s1) = Inr w"
    unfolding accepts_own_pointers_def by blast
  then show ?thesis by (simp add: ns_free_def)
qed

text \<open>
  Claim C5. For every size, \<open>ns_malloc\<close> returns exactly what the host's
  \<open>malloc\<close> returns for that size, the null pointer included, and leaves the host in
  the state \<open>malloc\<close> left it in: it never faults and adds no failure of its own.
  \<open>ns_free\<close> is the host's \<open>free\<close> on the same pointer, fault for fault. On a host
  whose \<open>free\<close> accepts what its \<open>malloc\<close> returned, \<open>ns_free\<close> of the pointer
  that \<open>ns_malloc\<close> returned does not fault, whether it is called at once or after
  any sequence of calls of the other stubs.
\<close>

theorem alloc_forwards:
  "ns_malloc h n s = (fst (malloc h n (world s)), s\<lparr>world := snd (malloc h n (world s))\<rparr>)
   \<and> exec h (Ns_malloc n) s
       = Inr (Pointer (fst (malloc h n (world s))), s\<lparr>world := snd (malloc h n (world s))\<rparr>)
   \<and> (fst (ns_malloc h n s) = NULL \<longleftrightarrow> fst (malloc h n (world s)) = NULL)
   \<and> ns_free h p s = map_sum id (\<lambda>w. s\<lparr>world := w\<rparr>) (free h p (world s))
   \<and> exec h (Ns_free p) s = map_sum id (\<lambda>w. (Void, s\<lparr>world := w\<rparr>)) (free h p (world s))
   \<and> (accepts_own_pointers h \<longrightarrow>
        (\<forall>q s1. exec h (Ns_malloc n) s = Inr (Pointer q, s1) \<longrightarrow>
           (\<exists>s2. exec h (Ns_free q) s1 = Inr (Void, s2))
           \<and> (list_all (\<lambda>c. \<not> forwards c) cs \<longrightarrow>
                (\<exists>s2. state_after h (cs @ [Ns_free q]) s1 = Inr s2))))"
proof -
  have m: "ns_malloc h n s = (fst (malloc h n (world s)), s\<lparr>world := snd (malloc h n (world s))\<rparr>)"
    by (simp add: ns_malloc_def split: prod.splits)
  have f: "ns_free h p s = map_sum id (\<lambda>w. s\<lparr>world := w\<rparr>) (free h p (world s))" for p s
    by (simp add: ns_free_def split: sum.splits)
  have x: "exec h (Ns_malloc n) s
       = Inr (Pointer (fst (malloc h n (world s))), s\<lparr>world := snd (malloc h n (world s))\<rparr>)"
    by (simp add: m)
  have y: "exec h (Ns_free p) s = map_sum id (\<lambda>w. (Void, s\<lparr>world := w\<rparr>)) (free h p (world s))"
    for p s
    by (simp add: ns_free_def split: sum.splits)
  have z: "fst (ns_malloc h n s) = NULL \<longleftrightarrow> fst (malloc h n (world s)) = NULL"
    by (simp add: m)
  have w: "\<exists>w. free h q (world s1) = Inr w"
    if a: "accepts_own_pointers h" and e: "exec h (Ns_malloc n) s = Inr (Pointer q, s1)" for q s1
  proof -
    from e m have "malloc h n (world s) = (q, world s1)"
      by (auto simp: prod_eq_iff)
    with a show ?thesis
      unfolding accepts_own_pointers_def by blast
  qed
  have c: "\<exists>s2. exec h (Ns_free q) s1 = Inr (Void, s2)"
    if "accepts_own_pointers h" and "exec h (Ns_malloc n) s = Inr (Pointer q, s1)" for q s1
    using w [OF that] by (auto simp: ns_free_def)
  have d: "\<exists>s2. state_after h (cs @ [Ns_free q]) s1 = Inr s2"
    if "accepts_own_pointers h" and "exec h (Ns_malloc n) s = Inr (Pointer q, s1)"
      and "list_all (\<lambda>c. \<not> forwards c) cs" for q s1
  proof -
    from that(3) obtain vs s' where r: "run h cs s1 = Inr (vs, s')" "world s' = world s1"
      using run_local by blast
    from w [OF that(1,2)] r(2) obtain w' where "free h q (world s') = Inr w'"
      by auto
    then have "exec h (Ns_free q) s' = Inr (Void, s'\<lparr>world := w'\<rparr>)"
      by (simp add: ns_free_def)
    then show ?thesis
      by (simp add: state_after_def run_append [OF r(1)])
  qed
  from m x z f [of p s] y [of p s] c d show ?thesis by blast
qed

theorem alloc_forwards_witness:
  "accepts_own_pointers arena_host
   \<and> exec arena_host (Ns_malloc 4) garbage
       = Inr (Pointer 16, garbage\<lparr>world := \<lparr>next_free = 20, blocks = [16], out = ''''\<rparr>\<rparr>)
   \<and> (\<exists>s2. exec arena_host (Ns_free 16) (garbage\<lparr>world := \<lparr>next_free = 20, blocks = [16], out = ''''\<rparr>\<rparr>)
          = Inr (Void, s2))
   \<and> list_all (\<lambda>c. \<not> forwards c) [Ns_timer_init 0, Am_hal_sysctrl_sleep]
   \<and> (\<exists>s2. state_after arena_host [Ns_timer_init 0, Am_hal_sysctrl_sleep, Ns_free 16]
               (garbage\<lparr>world := \<lparr>next_free = 20, blocks = [16], out = ''''\<rparr>\<rparr>) = Inr s2)
   \<and> exec arena_host (Ns_malloc 100) garbage = Inr (Pointer NULL, garbage)
   \<and> (\<exists>s2. exec arena_host (Ns_free NULL) garbage = Inr (Void, s2))"
proof -
  have e: "exec arena_host (Ns_malloc 4) garbage
       = Inr (Pointer 16, garbage\<lparr>world := \<lparr>next_free = 20, blocks = [16], out = ''''\<rparr>\<rparr>)"
    by (simp add: ns_malloc_def arena_host_def arena_malloc_def garbage_def arena0_def)
  have z: "exec arena_host (Ns_malloc 100) garbage = Inr (Pointer NULL, garbage)"
    by (simp add: ns_malloc_def arena_host_def arena_malloc_def garbage_def arena0_def)
  have l: "list_all (\<lambda>c. \<not> forwards c) [Ns_timer_init 0, Am_hal_sysctrl_sleep]"
    by simp
  from arena_accepts e l
    alloc_forwards [of arena_host 4 garbage _ "[Ns_timer_init 0, Am_hal_sysctrl_sleep]"]
  have 1: "(\<exists>s2. exec arena_host (Ns_free 16) (garbage\<lparr>world := \<lparr>next_free = 20, blocks = [16], out = ''''\<rparr>\<rparr>)
          = Inr (Void, s2))
     \<and> (\<exists>s2. state_after arena_host ([Ns_timer_init 0, Am_hal_sysctrl_sleep] @ [Ns_free 16])
               (garbage\<lparr>world := \<lparr>next_free = 20, blocks = [16], out = ''''\<rparr>\<rparr>) = Inr s2)"
    by blast
  from arena_accepts z alloc_forwards [of arena_host 100 garbage]
  have 2: "\<exists>s2. exec arena_host (Ns_free NULL) garbage = Inr (Void, s2)"
    by blast
  from arena_accepts e z l 1 2 show ?thesis by simp
qed

section \<open>Failure\<close>

text \<open>
  Claim C8, as stated, fails for \<open>ns_lp_printf\<close>, which is a stub other than
  \<open>ns_malloc\<close>: its value is the \<^verbatim>\<open>int\<close> of the host's \<^verbatim>\<open>printf\<close>, which is
  the error value of that function when the output fails. On the arena host, whose
  output takes eight characters, a call with a valid format of twelve characters returns
  \<open>-1\<close>.
\<close>

theorem printf_error_counterexample:
  "exec arena_host (Ns_lp_printf ''hello, world'' []) garbage = Inr (Integer (- 1), garbage)"
  by (simp add: ns_lp_printf_def arena_host_def arena_printf_def garbage_def arena0_def)

text \<open>
  Claim C8, amended. No stub has an error report or a failure of its own. Every stub
  other than \<open>ns_malloc\<close> and \<open>ns_lp_printf\<close>, called within its contract, returns
  normally with no value: the ten stubs with an empty body and the two timer stubs in
  every state, and \<open>ns_free\<close> whenever the host's \<open>free\<close> accepts the pointer, which
  on a host whose \<open>free\<close> accepts what its \<open>malloc\<close> returned is the case for the
  pointer \<open>ns_malloc\<close> returned. The outcome of \<open>ns_free\<close> is in every case the
  outcome of the host's \<open>free\<close> on the same pointer, so it has no fault that is not the
  host's. \<open>ns_malloc\<close> always returns, with the pointer of the host's \<open>malloc\<close>: the
  null pointer of the host is its only report of failure. \<open>ns_lp_printf\<close> always
  returns, with the value of the host's \<open>printf\<close>: that value is its only report of
  failure.
\<close>

theorem no_failure_of_own:
  "(\<not> forwards c \<longrightarrow> (\<exists>s'. exec h c s = Inr (Void, s')))
   \<and> exec h (Ns_free p) s = map_sum id (\<lambda>w. (Void, s\<lparr>world := w\<rparr>)) (free h p (world s))
   \<and> ((\<exists>w. free h p (world s) = Inr w) \<longrightarrow> (\<exists>s'. exec h (Ns_free p) s = Inr (Void, s')))
   \<and> (exec h (Ns_free p) s = Inl e \<longleftrightarrow> free h p (world s) = Inl e)
   \<and> (accepts_own_pointers h \<longrightarrow>
        (\<forall>q s1. exec h (Ns_malloc n) s = Inr (Pointer q, s1) \<longrightarrow>
           (\<exists>s2. exec h (Ns_free q) s1 = Inr (Void, s2))))
   \<and> exec h (Ns_malloc n) s
       = Inr (Pointer (fst (malloc h n (world s))), s\<lparr>world := snd (malloc h n (world s))\<rparr>)
   \<and> ((\<exists>s'. exec h (Ns_malloc n) s = Inr (Pointer NULL, s'))
        \<longleftrightarrow> fst (malloc h n (world s)) = NULL)
   \<and> exec h (Ns_lp_printf fmt args) s
       = Inr (Integer (fst (printf h fmt args (world s))),
              s\<lparr>world := snd (printf h fmt args (world s))\<rparr>)"
proof -
  have 1: "\<not> forwards c \<longrightarrow> (\<exists>s'. exec h c s = Inr (Void, s'))"
    using exec_local [of c h s] by blast
  have 2: "exec h (Ns_free p) s = map_sum id (\<lambda>w. (Void, s\<lparr>world := w\<rparr>)) (free h p (world s))"
    by (simp add: ns_free_def split: sum.splits)
  have 3: "(\<exists>w. free h p (world s) = Inr w) \<longrightarrow> (\<exists>s'. exec h (Ns_free p) s = Inr (Void, s'))"
    by (auto simp: ns_free_def)
  have 4: "exec h (Ns_free p) s = Inl e \<longleftrightarrow> free h p (world s) = Inl e"
    by (simp add: ns_free_def split: sum.splits)
  have 5: "accepts_own_pointers h \<longrightarrow>
        (\<forall>q s1. exec h (Ns_malloc n) s = Inr (Pointer q, s1) \<longrightarrow>
           (\<exists>s2. exec h (Ns_free q) s1 = Inr (Void, s2)))"
    using free_after_malloc by blast
  have 6: "exec h (Ns_malloc n) s
       = Inr (Pointer (fst (malloc h n (world s))), s\<lparr>world := snd (malloc h n (world s))\<rparr>)"
    by (simp add: ns_malloc_def split: prod.splits)
  have 7: "(\<exists>s'. exec h (Ns_malloc n) s = Inr (Pointer NULL, s'))
        \<longleftrightarrow> fst (malloc h n (world s)) = NULL"
    unfolding 6 by auto
  have 8: "exec h (Ns_lp_printf fmt args) s
       = Inr (Integer (fst (printf h fmt args (world s))),
              s\<lparr>world := snd (printf h fmt args (world s))\<rparr>)"
    by (simp add: ns_lp_printf_def split: prod.splits)
  from 1 2 3 4 5 6 7 8 show ?thesis by blast
qed

theorem no_failure_of_own_witness:
  "\<not> forwards (Ns_timer_start 2)
   \<and> (\<exists>s'. exec arena_host (Ns_timer_start 2) garbage = Inr (Void, s'))
   \<and> \<not> forwards Am_hal_sysctrl_sleep
   \<and> (\<exists>s'. exec arena_host Am_hal_sysctrl_sleep garbage = Inr (Void, s'))
   \<and> accepts_own_pointers arena_host
   \<and> exec arena_host (Ns_malloc 4) garbage
       = Inr (Pointer 16, garbage\<lparr>world := \<lparr>next_free = 20, blocks = [16], out = ''''\<rparr>\<rparr>)
   \<and> (\<exists>s2. exec arena_host (Ns_free 16)
               (garbage\<lparr>world := \<lparr>next_free = 20, blocks = [16], out = ''''\<rparr>\<rparr>) = Inr (Void, s2))
   \<and> (\<exists>w. free arena_host NULL (world garbage) = Inr w)
   \<and> (\<exists>s'. exec arena_host (Ns_free NULL) garbage = Inr (Void, s'))
   \<and> exec arena_host (Ns_malloc 100) garbage = Inr (Pointer NULL, garbage)
   \<and> exec arena_host (Ns_lp_printf ''tick'' []) garbage
       = Inr (Integer 4, garbage\<lparr>world := \<lparr>next_free = 16, blocks = [], out = ''tick''\<rparr>\<rparr>)"
proof -
  have a: "\<not> forwards (Ns_timer_start 2)" "\<not> forwards Am_hal_sysctrl_sleep"
    by simp_all
  have e: "exec arena_host (Ns_malloc 4) garbage
       = Inr (Pointer 16, garbage\<lparr>world := \<lparr>next_free = 20, blocks = [16], out = ''''\<rparr>\<rparr>)"
    by (simp add: ns_malloc_def arena_host_def arena_malloc_def garbage_def arena0_def)
  have n: "\<exists>w. free arena_host NULL (world garbage) = Inr w"
    by (simp add: arena_host_def arena_free_def)
  from a no_failure_of_own [of "Ns_timer_start 2" arena_host garbage]
  have 1: "\<exists>s'. exec arena_host (Ns_timer_start 2) garbage = Inr (Void, s')"
    by blast
  from a no_failure_of_own [of Am_hal_sysctrl_sleep arena_host garbage]
  have 2: "\<exists>s'. exec arena_host Am_hal_sysctrl_sleep garbage = Inr (Void, s')"
    by blast
  from arena_accepts e no_failure_of_own [of _ arena_host garbage _ _ 4]
  have 3: "\<exists>s2. exec arena_host (Ns_free 16)
               (garbage\<lparr>world := \<lparr>next_free = 20, blocks = [16], out = ''''\<rparr>\<rparr>) = Inr (Void, s2)"
    by blast
  from n no_failure_of_own [of _ arena_host garbage NULL]
  have 4: "\<exists>s'. exec arena_host (Ns_free NULL) garbage = Inr (Void, s')"
    by blast
  have 5: "exec arena_host (Ns_malloc 100) garbage = Inr (Pointer NULL, garbage)"
    using no_failure_of_own [of _ arena_host garbage _ _ 100]
    by (simp add: arena_host_def arena_malloc_def garbage_def arena0_def)
  have 6: "exec arena_host (Ns_lp_printf ''tick'' []) garbage
       = Inr (Integer 4, garbage\<lparr>world := \<lparr>next_free = 16, blocks = [], out = ''tick''\<rparr>\<rparr>)"
    using no_failure_of_own [of _ arena_host garbage _ _ _ "''tick''" "[]"]
    by (simp add: arena_host_def arena_printf_def garbage_def arena0_def)
  from a arena_accepts e n 1 2 3 4 5 6 show ?thesis by blast
qed

section \<open>Determinism\<close>



section \<open>Properties of cmsis.h\<close>

lemma process_all_guard:
  "process_all inc (Ifndef x [Define x m] # ds) env
     = process_all inc ds (define_if_absent x m env)"
  by (auto simp: define_if_absent_def fmlookup_dom_iff split: option.splits)

lemma process_all_include:
  "process_all inc (Include f # ds) env = process_all inc ds (inc f env)"
  by simp

lemma process_all_define:
  "x |\<notin>| fmdom env \<Longrightarrow>
     process_all inc (Define x m # ds) env = process_all inc ds (fmupd x m env)"
  by (auto simp: fmlookup_dom_iff split: option.splits)

lemma lookup_define_if_absent:
  "fmlookup (define_if_absent x m env) y
     = (if y = x \<and> fmlookup env x = None then Some m else fmlookup env y)"
  by (auto simp: define_if_absent_def fmlookup_dom_iff)

lemma cmsis_h_again:
  "''CMSIS_H'' |\<in>| fmdom env \<Longrightarrow> process_all inc cmsis_h env = Inr env"
  by (simp add: cmsis_h_def)

lemma process_all_ifndef:
  "x |\<notin>| fmdom env \<Longrightarrow> process_all inc [Ifndef x ds] env = process_all inc ds env"
  by (simp split: sum.splits)

lemma cmsis_h_first:
  assumes "''CMSIS_H'' |\<notin>| fmdom env"
  shows "process_all inc cmsis_h env
     = Inr (guarded_block
         (inc ''cmsis_gcc.h'' (inc ''cmsis_compiler.h'' (fmupd ''CMSIS_H'' Empty env))))"
  unfolding cmsis_h_def
  by (simp only: process_all_ifndef [OF assms] process_all_define [OF assms]
      process_all_guard process_all_include process_all.simps(1) guarded_block_def comp_apply)

lemma define_if_absent_keeps:
  "fmlookup e x = Some m \<Longrightarrow> fmlookup (define_if_absent y m' e) x = Some m"
  by (auto simp: lookup_define_if_absent)

lemma guarded_block_keeps:
  "fmlookup e x = Some m \<Longrightarrow> fmlookup (guarded_block e) x = Some m"
  unfolding guarded_block_def comp_apply
  by (intro define_if_absent_keeps)

lemma guarded_block_defines:
  "x \<in> set guarded_symbols \<Longrightarrow> fmlookup (guarded_block e) x \<noteq> None"
  unfolding guarded_symbols_def guarded_block_def comp_apply
  by (auto simp: lookup_define_if_absent)


lemma only_adds_no_includes: "only_adds no_includes"
  by (simp add: only_adds_def no_includes_def)

lemma leaves_alone_no_includes: "leaves_alone no_includes xs"
  by (simp add: leaves_alone_def no_includes_def)

text \<open>
  Claim C6. With the macro environment a finite map, and included files that only add
  macros: processing cmsis.h never ends in a redefinition error; every macro that was
  defined before keeps its definition; processing the header a second time gives no
  error and the same environment as the first time; and where the header has not been
  processed before, the result is the nine define-if-absent steps applied after the
  includes, so that all nine guarded names are defined afterwards.
\<close>

theorem cmsis_h_define_if_absent:
  assumes "only_adds inc"
  shows "\<exists>env'. process_all inc cmsis_h env = Inr env'
      \<and> process_all inc cmsis_h env' = Inr env'
      \<and> (\<forall>x m. fmlookup env x = Some m \<longrightarrow> fmlookup env' x = Some m)
      \<and> (''CMSIS_H'' |\<notin>| fmdom env \<longrightarrow>
           env' = guarded_block
             (inc ''cmsis_gcc.h'' (inc ''cmsis_compiler.h'' (fmupd ''CMSIS_H'' Empty env)))
           \<and> (\<forall>x \<in> set guarded_symbols. x |\<in>| fmdom env'))"
proof (cases "''CMSIS_H'' |\<in>| fmdom env")
  case True
  then have "process_all inc cmsis_h env = Inr env"
    by (rule cmsis_h_again)
  with True show ?thesis by simp
next
  case False
  define e0 where "e0 = fmupd ''CMSIS_H'' Empty env"
  define e1 where "e1 = inc ''cmsis_gcc.h'' (inc ''cmsis_compiler.h'' e0)"
  define env' where "env' = guarded_block e1"
  have first: "process_all inc cmsis_h env = Inr env'"
    using cmsis_h_first [OF False] by (simp add: env'_def e1_def e0_def)
  have keep01: "fmlookup e1 x = Some m" if "fmlookup e0 x = Some m" for x m
    using that assms unfolding only_adds_def e1_def by blast
  have keep: "fmlookup env' x = Some m" if "fmlookup e0 x = Some m" for x m
    unfolding env'_def by (rule guarded_block_keeps) (rule keep01 [OF that])
  have "fmlookup e0 ''CMSIS_H'' = Some Empty"
    by (simp add: e0_def)
  then have "fmlookup env' ''CMSIS_H'' = Some Empty"
    by (rule keep)
  then have "''CMSIS_H'' |\<in>| fmdom env'"
    by (rule fmdomI)
  then have again: "process_all inc cmsis_h env' = Inr env'"
    by (rule cmsis_h_again)
  have old: "fmlookup env' x = Some m" if "fmlookup env x = Some m" for x m
  proof (rule keep)
    from that False have "x \<noteq> ''CMSIS_H''"
      by (auto dest: fmdomI)
    with that show "fmlookup e0 x = Some m"
      by (simp add: e0_def)
  qed
  have new: "x |\<in>| fmdom env'" if "x \<in> set guarded_symbols" for x
    using guarded_block_defines [OF that, of e1]
    by (auto simp: env'_def fmlookup_dom_iff)
  from first again old new show ?thesis
    unfolding env'_def e1_def e0_def by blast
qed

theorem cmsis_h_define_if_absent_witness:
  "only_adds no_includes
   \<and> ''CMSIS_H'' |\<notin>| fmdom vendor_env
   \<and> fmlookup vendor_env ''DWT_LAR'' = Some (Object (Const 1 U))
   \<and> (\<exists>env'. process_all no_includes cmsis_h vendor_env = Inr env'
          \<and> process_all no_includes cmsis_h env' = Inr env'
          \<and> fmlookup env' ''DWT_LAR'' = Some (Object (Const 1 U))
          \<and> ''__DSB'' |\<in>| fmdom env')"
proof -
  have a: "''CMSIS_H'' |\<notin>| fmdom vendor_env"
    by (simp add: vendor_env_def)
  have b: "fmlookup vendor_env ''DWT_LAR'' = Some (Object (Const 1 U))"
    by (simp add: vendor_env_def)
  have c: "''__DSB'' \<in> set guarded_symbols"
    by (simp add: guarded_symbols_def)
  from cmsis_h_define_if_absent [OF only_adds_no_includes, of vendor_env] a b c
  have "\<exists>env'. process_all no_includes cmsis_h vendor_env = Inr env'
          \<and> process_all no_includes cmsis_h env' = Inr env'
          \<and> fmlookup env' ''DWT_LAR'' = Some (Object (Const 1 U))
          \<and> ''__DSB'' |\<in>| fmdom env'"
    by blast
  with only_adds_no_includes a b show ?thesis by blast
qed


lemma unat_of_nat_32: "n < 2 ^ 32 \<Longrightarrow> unat (of_nat n :: 32 word) = n"
  by (simp add: unat_of_nat)

lemma unat_shifted_one:
  assumes "p < 32"
  shows "unat (push_bit p (1::32 word)) = 2 ^ p"
proof -
  have "(2::nat) ^ p < 2 ^ 32"
    using assms by (intro power_strict_increasing) simp_all
  then have "unat (of_nat (2 ^ p) :: 32 word) = 2 ^ p"
    by (rule unat_of_nat_32)
  moreover have "push_bit p (1::32 word) = of_nat (2 ^ p)"
    by (simp add: push_bit_of_1)
  ultimately show ?thesis
    by (simp only:)
qed

lemma eval_shift_one:
  assumes "fmlookup e pos = Some (Object (Const p sfx))"
  shows "eval e (Shl (Const 1 UL) (Ident pos)) = (if p < 32 then Some (push_bit p 1) else None)"
proof (cases "p < 2 ^ 32")
  case True
  then have "unat (of_nat p :: 32 word) = p"
    by (rule unat_of_nat_32)
  with True assms show ?thesis by simp
next
  case False
  then have "\<not> p < 32" by simp
  with False assms show ?thesis by simp
qed

lemma eval_mask:
  assumes "fmlookup e msk = Some (Object (Shl (Const 1 UL) (Ident pos)))"
    and "fmlookup e pos = Some (Object (Const p sfx))"
    and "msk \<noteq> pos"
  shows "eval e (Ident msk) = (if p < 32 then Some (push_bit p 1) else None)"
proof -
  have "fmlookup (fmdrop msk e) pos = Some (Object (Const p sfx))"
    using assms by simp
  then have "eval (fmdrop msk e) (Shl (Const 1 UL) (Ident pos))
      = (if p < 32 then Some (push_bit p 1) else None)"
    by (rule eval_shift_one)
  with assms(1) show ?thesis by simp
qed


lemma mask_pair:
  assumes "fmlookup e msk = Some (Object (Shl (Const 1 UL) (Ident pos)))"
    and "fmlookup e pos = Some (Object (Const q sfx))"
    and "msk \<noteq> pos"
  shows "eval e (Ident msk) = eval e (Shl (Const 1 UL) (Ident pos))
     \<and> (q < 32 \<longrightarrow> eval e (Ident pos) = Some (of_nat q)
           \<and> eval e (Ident msk) = Some (push_bit q 1)
           \<and> (\<exists>v. eval e (Ident msk) = Some v \<and> unat v = 2 ^ q))"
proof -
  have 1: "eval e (Ident msk) = (if q < 32 then Some (push_bit q 1) else None)"
    using assms by (rule eval_mask)
  have 2: "eval e (Shl (Const 1 UL) (Ident pos)) = (if q < 32 then Some (push_bit q 1) else None)"
    using assms(2) by (rule eval_shift_one)
  have 3: "eval e (Ident pos) = Some (of_nat q)" if "q < 32"
    using that assms(2) by simp
  from 1 2 have 4: "eval e (Ident msk) = eval e (Shl (Const 1 UL) (Ident pos))"
    by (simp only:)
  have 5: "eval e (Ident msk) = Some (push_bit q 1)" if "q < 32"
    using 1 that by (simp only: if_True)
  have 6: "\<exists>v. eval e (Ident msk) = Some v \<and> unat v = 2 ^ q" if "q < 32"
    using 5 [OF that] unat_shifted_one [OF that] by blast
  from 3 4 5 6 show ?thesis by blast
qed

text \<open>
  Claim C7. Where the header is processed for the first time and supplies a mask (the
  mask is not defined before, and the included files leave mask and position alone), the
  mask evaluates to what \<^verbatim>\<open>1UL << position\<close> evaluates to. With the position also
  supplied by the header, the positions are 0 and 24 and the masks are 1 and
  \<open>0x1000000\<close>. With the position supplied before the header as a constant \<open>p\<close>
  below 32, the mask is 1 shifted left by \<open>p\<close>, and its unsigned value is exactly
  \<open>2 ^ p\<close>, although the header defines the mask in a line above the position.
\<close>

theorem masks_shift_one:
  assumes "leaves_alone inc
      [''DWT_CTRL_CYCCNTENA_Msk'', ''DWT_CTRL_CYCCNTENA_Pos'',
       ''CoreDebug_DEMCR_TRCENA_Msk'', ''CoreDebug_DEMCR_TRCENA_Pos'']"
    and "''CMSIS_H'' |\<notin>| fmdom env"
  shows "\<exists>env'. process_all inc cmsis_h env = Inr env'
     \<and> (fmlookup env ''DWT_CTRL_CYCCNTENA_Msk'' = None \<longrightarrow>
          (fmlookup env ''DWT_CTRL_CYCCNTENA_Pos'' = None \<longrightarrow>
             eval env' (Ident ''DWT_CTRL_CYCCNTENA_Pos'') = Some 0
             \<and> eval env' (Ident ''DWT_CTRL_CYCCNTENA_Msk'') = Some 1
             \<and> eval env' (Ident ''DWT_CTRL_CYCCNTENA_Msk'')
                 = eval env' (Shl (Const 1 UL) (Ident ''DWT_CTRL_CYCCNTENA_Pos'')))
          \<and> (fmlookup env ''DWT_CTRL_CYCCNTENA_Pos'' = Some (Object (Const p1 s1)) \<longrightarrow>
             eval env' (Ident ''DWT_CTRL_CYCCNTENA_Msk'')
                 = eval env' (Shl (Const 1 UL) (Ident ''DWT_CTRL_CYCCNTENA_Pos''))
             \<and> (p1 < 32 \<longrightarrow>
                  eval env' (Ident ''DWT_CTRL_CYCCNTENA_Pos'') = Some (of_nat p1)
                  \<and> eval env' (Ident ''DWT_CTRL_CYCCNTENA_Msk'') = Some (push_bit p1 1)
                  \<and> (\<exists>v. eval env' (Ident ''DWT_CTRL_CYCCNTENA_Msk'') = Some v
                         \<and> unat v = 2 ^ p1))))
     \<and> (fmlookup env ''CoreDebug_DEMCR_TRCENA_Msk'' = None \<longrightarrow>
          (fmlookup env ''CoreDebug_DEMCR_TRCENA_Pos'' = None \<longrightarrow>
             eval env' (Ident ''CoreDebug_DEMCR_TRCENA_Pos'') = Some 24
             \<and> eval env' (Ident ''CoreDebug_DEMCR_TRCENA_Msk'') = Some 0x1000000
             \<and> eval env' (Ident ''CoreDebug_DEMCR_TRCENA_Msk'')
                 = eval env' (Shl (Const 1 UL) (Ident ''CoreDebug_DEMCR_TRCENA_Pos'')))
          \<and> (fmlookup env ''CoreDebug_DEMCR_TRCENA_Pos'' = Some (Object (Const p2 s2)) \<longrightarrow>
             eval env' (Ident ''CoreDebug_DEMCR_TRCENA_Msk'')
                 = eval env' (Shl (Const 1 UL) (Ident ''CoreDebug_DEMCR_TRCENA_Pos''))
             \<and> (p2 < 32 \<longrightarrow>
                  eval env' (Ident ''CoreDebug_DEMCR_TRCENA_Pos'') = Some (of_nat p2)
                  \<and> eval env' (Ident ''CoreDebug_DEMCR_TRCENA_Msk'') = Some (push_bit p2 1)
                  \<and> (\<exists>v. eval env' (Ident ''CoreDebug_DEMCR_TRCENA_Msk'') = Some v
                         \<and> unat v = 2 ^ p2))))"
proof -
  define e1 where
    "e1 = inc ''cmsis_gcc.h'' (inc ''cmsis_compiler.h'' (fmupd ''CMSIS_H'' Empty env))"
  define env' where "env' = guarded_block e1"
  have first: "process_all inc cmsis_h env = Inr env'"
    using cmsis_h_first [OF assms(2)] by (simp add: env'_def e1_def)
  have same: "fmlookup e1 ''DWT_CTRL_CYCCNTENA_Msk'' = fmlookup env ''DWT_CTRL_CYCCNTENA_Msk''"
    "fmlookup e1 ''DWT_CTRL_CYCCNTENA_Pos'' = fmlookup env ''DWT_CTRL_CYCCNTENA_Pos''"
    "fmlookup e1 ''CoreDebug_DEMCR_TRCENA_Msk'' = fmlookup env ''CoreDebug_DEMCR_TRCENA_Msk''"
    "fmlookup e1 ''CoreDebug_DEMCR_TRCENA_Pos'' = fmlookup env ''CoreDebug_DEMCR_TRCENA_Pos''"
    using assms(1) unfolding leaves_alone_def e1_def by simp_all
  have msk1: "fmlookup env' ''DWT_CTRL_CYCCNTENA_Msk''
      = Some (Object (Shl (Const 1 UL) (Ident ''DWT_CTRL_CYCCNTENA_Pos'')))"
    if "fmlookup env ''DWT_CTRL_CYCCNTENA_Msk'' = None"
    using that same by (simp add: env'_def guarded_block_def lookup_define_if_absent)
  have msk2: "fmlookup env' ''CoreDebug_DEMCR_TRCENA_Msk''
      = Some (Object (Shl (Const 1 UL) (Ident ''CoreDebug_DEMCR_TRCENA_Pos'')))"
    if "fmlookup env ''CoreDebug_DEMCR_TRCENA_Msk'' = None"
    using that same by (simp add: env'_def guarded_block_def lookup_define_if_absent)
  have pos1: "fmlookup env' ''DWT_CTRL_CYCCNTENA_Pos''
      = (case fmlookup env ''DWT_CTRL_CYCCNTENA_Pos'' of
           None \<Rightarrow> Some (Object (Const 0 U)) | Some m \<Rightarrow> Some m)"
    using same by (simp add: env'_def guarded_block_def lookup_define_if_absent split: option.splits)
  have pos2: "fmlookup env' ''CoreDebug_DEMCR_TRCENA_Pos''
      = (case fmlookup env ''CoreDebug_DEMCR_TRCENA_Pos'' of
           None \<Rightarrow> Some (Object (Const 24 U)) | Some m \<Rightarrow> Some m)"
    using same by (simp add: env'_def guarded_block_def lookup_define_if_absent split: option.splits)
  have ne: "''DWT_CTRL_CYCCNTENA_Msk'' \<noteq> ''DWT_CTRL_CYCCNTENA_Pos''"
    "''CoreDebug_DEMCR_TRCENA_Msk'' \<noteq> ''CoreDebug_DEMCR_TRCENA_Pos''"
    by simp_all
  have a1: "eval env' (Ident ''DWT_CTRL_CYCCNTENA_Pos'') = Some 0
      \<and> eval env' (Ident ''DWT_CTRL_CYCCNTENA_Msk'') = Some 1
      \<and> eval env' (Ident ''DWT_CTRL_CYCCNTENA_Msk'')
          = eval env' (Shl (Const 1 UL) (Ident ''DWT_CTRL_CYCCNTENA_Pos''))"
    if "fmlookup env ''DWT_CTRL_CYCCNTENA_Msk'' = None"
      and "fmlookup env ''DWT_CTRL_CYCCNTENA_Pos'' = None"
    using mask_pair [OF msk1 [OF that(1)] _ ne(1), of 0 U] pos1 that(2) by simp
  have a2: "eval env' (Ident ''CoreDebug_DEMCR_TRCENA_Pos'') = Some 24
      \<and> eval env' (Ident ''CoreDebug_DEMCR_TRCENA_Msk'') = Some 0x1000000
      \<and> eval env' (Ident ''CoreDebug_DEMCR_TRCENA_Msk'')
          = eval env' (Shl (Const 1 UL) (Ident ''CoreDebug_DEMCR_TRCENA_Pos''))"
    if "fmlookup env ''CoreDebug_DEMCR_TRCENA_Msk'' = None"
      and "fmlookup env ''CoreDebug_DEMCR_TRCENA_Pos'' = None"
    using mask_pair [OF msk2 [OF that(1)] _ ne(2), of 24 U] pos2 that(2) by simp
  have b1: "eval env' (Ident ''DWT_CTRL_CYCCNTENA_Msk'')
          = eval env' (Shl (Const 1 UL) (Ident ''DWT_CTRL_CYCCNTENA_Pos''))
      \<and> (p1 < 32 \<longrightarrow>
           eval env' (Ident ''DWT_CTRL_CYCCNTENA_Pos'') = Some (of_nat p1)
           \<and> eval env' (Ident ''DWT_CTRL_CYCCNTENA_Msk'') = Some (push_bit p1 1)
           \<and> (\<exists>v. eval env' (Ident ''DWT_CTRL_CYCCNTENA_Msk'') = Some v \<and> unat v = 2 ^ p1))"
    if "fmlookup env ''DWT_CTRL_CYCCNTENA_Msk'' = None"
      and "fmlookup env ''DWT_CTRL_CYCCNTENA_Pos'' = Some (Object (Const p1 s1))"
  proof (rule mask_pair [OF msk1 [OF that(1)] _ ne(1)])
    show "fmlookup env' ''DWT_CTRL_CYCCNTENA_Pos'' = Some (Object (Const p1 s1))"
      using pos1 that(2) by simp
  qed
  have b2: "eval env' (Ident ''CoreDebug_DEMCR_TRCENA_Msk'')
          = eval env' (Shl (Const 1 UL) (Ident ''CoreDebug_DEMCR_TRCENA_Pos''))
      \<and> (p2 < 32 \<longrightarrow>
           eval env' (Ident ''CoreDebug_DEMCR_TRCENA_Pos'') = Some (of_nat p2)
           \<and> eval env' (Ident ''CoreDebug_DEMCR_TRCENA_Msk'') = Some (push_bit p2 1)
           \<and> (\<exists>v. eval env' (Ident ''CoreDebug_DEMCR_TRCENA_Msk'') = Some v \<and> unat v = 2 ^ p2))"
    if "fmlookup env ''CoreDebug_DEMCR_TRCENA_Msk'' = None"
      and "fmlookup env ''CoreDebug_DEMCR_TRCENA_Pos'' = Some (Object (Const p2 s2))"
  proof (rule mask_pair [OF msk2 [OF that(1)] _ ne(2)])
    show "fmlookup env' ''CoreDebug_DEMCR_TRCENA_Pos'' = Some (Object (Const p2 s2))"
      using pos2 that(2) by simp
  qed
  from first a1 a2 b1 b2 show ?thesis
    by (intro exI [of _ env'] conjI impI) blast+
qed


theorem masks_shift_one_witness:
  "leaves_alone no_includes
      [''DWT_CTRL_CYCCNTENA_Msk'', ''DWT_CTRL_CYCCNTENA_Pos'',
       ''CoreDebug_DEMCR_TRCENA_Msk'', ''CoreDebug_DEMCR_TRCENA_Pos'']
   \<and> ''CMSIS_H'' |\<notin>| fmdom vendor_env
   \<and> fmlookup vendor_env ''DWT_CTRL_CYCCNTENA_Msk'' = None
   \<and> fmlookup vendor_env ''DWT_CTRL_CYCCNTENA_Pos'' = Some (Object (Const 5 U))
   \<and> (5::nat) < 32
   \<and> fmlookup vendor_env ''CoreDebug_DEMCR_TRCENA_Msk'' = None
   \<and> fmlookup vendor_env ''CoreDebug_DEMCR_TRCENA_Pos'' = None
   \<and> (\<exists>env'. process_all no_includes cmsis_h vendor_env = Inr env'
          \<and> eval env' (Ident ''DWT_CTRL_CYCCNTENA_Msk'') = Some 32
          \<and> eval env' (Ident ''CoreDebug_DEMCR_TRCENA_Pos'') = Some 24
          \<and> eval env' (Ident ''CoreDebug_DEMCR_TRCENA_Msk'') = Some 0x1000000)
   \<and> (\<exists>env'. process_all no_includes cmsis_h fmempty = Inr env'
          \<and> eval env' (Ident ''DWT_CTRL_CYCCNTENA_Pos'') = Some 0
          \<and> eval env' (Ident ''DWT_CTRL_CYCCNTENA_Msk'') = Some 1)"
proof -
  have a: "''CMSIS_H'' |\<notin>| fmdom vendor_env"
    by (simp add: vendor_env_def)
  have b: "fmlookup vendor_env ''DWT_CTRL_CYCCNTENA_Msk'' = None"
    "fmlookup vendor_env ''DWT_CTRL_CYCCNTENA_Pos'' = Some (Object (Const 5 U))"
    "fmlookup vendor_env ''CoreDebug_DEMCR_TRCENA_Msk'' = None"
    "fmlookup vendor_env ''CoreDebug_DEMCR_TRCENA_Pos'' = None"
    by (simp_all add: vendor_env_def)
  have c: "(5::nat) < 32" by simp
  have d: "push_bit 5 (1::32 word) = 32" by simp
  have e: "''CMSIS_H'' |\<notin>| fmdom (fmempty :: env)"
    "fmlookup (fmempty :: env) ''DWT_CTRL_CYCCNTENA_Msk'' = None"
    "fmlookup (fmempty :: env) ''DWT_CTRL_CYCCNTENA_Pos'' = None"
    by simp_all
  from masks_shift_one [OF leaves_alone_no_includes a, of 5 U] b c
  have "\<exists>env'. process_all no_includes cmsis_h vendor_env = Inr env'
          \<and> eval env' (Ident ''DWT_CTRL_CYCCNTENA_Msk'') = Some (push_bit 5 1)
          \<and> eval env' (Ident ''CoreDebug_DEMCR_TRCENA_Pos'') = Some 24
          \<and> eval env' (Ident ''CoreDebug_DEMCR_TRCENA_Msk'') = Some 0x1000000"
    by blast
  then have 1: "\<exists>env'. process_all no_includes cmsis_h vendor_env = Inr env'
          \<and> eval env' (Ident ''DWT_CTRL_CYCCNTENA_Msk'') = Some 32
          \<and> eval env' (Ident ''CoreDebug_DEMCR_TRCENA_Pos'') = Some 24
          \<and> eval env' (Ident ''CoreDebug_DEMCR_TRCENA_Msk'') = Some 0x1000000"
    by (simp only: d)
  from masks_shift_one [OF leaves_alone_no_includes e(1)] e(2,3)
  have 2: "\<exists>env'. process_all no_includes cmsis_h fmempty = Inr env'
          \<and> eval env' (Ident ''DWT_CTRL_CYCCNTENA_Pos'') = Some 0
          \<and> eval env' (Ident ''DWT_CTRL_CYCCNTENA_Msk'') = Some 1"
    by blast
  from leaves_alone_no_includes a b c 1 2 show ?thesis by blast
qed

end
